theory Spec2Isabelle
  imports Main
begin

section \<open>String primitives used by the compiler\<close>

text \<open>
  A Python string is modelled as a \<^typ>\<open>string\<close>, one \<^typ>\<open>char\<close> per code point
  (code points below 256). The primitives below are the \<^verbatim>\<open>str\<close> methods that
  \<^verbatim>\<open>tidor_code.py\<close> calls: \<^verbatim>\<open>endswith\<close>, \<^verbatim>\<open>replace\<close>, \<^verbatim>\<open>find\<close>, slicing,
  \<^verbatim>\<open>strip\<close>, \<^verbatim>\<open>join\<close> and \<^verbatim>\<open>str\<close> of an integer or a boolean.
\<close>

fun startswith :: "string \<Rightarrow> string \<Rightarrow> bool" where
  "startswith s [] = True"
| "startswith [] (p # ps) = False"
| "startswith (c # cs) (p # ps) = (c = p \<and> startswith cs ps)"

definition endswith :: "string \<Rightarrow> string \<Rightarrow> bool" where
  "endswith s suf = startswith (rev s) (rev suf)"

text \<open>
  \<^verbatim>\<open>s.replace(old, new)\<close>: every non-overlapping occurrence of \<^verbatim>\<open>old\<close>, scanning
  from the left, is replaced. With an empty \<^verbatim>\<open>old\<close> Python inserts \<^verbatim>\<open>new\<close> before
  every character and at the end.
\<close>

function str_replace :: "string \<Rightarrow> string \<Rightarrow> string \<Rightarrow> string" where
  "str_replace [] old new = (if old = [] then new else [])"
| "str_replace (c # cs) old new =
     (if old = [] then new @ concat (map (\<lambda>x. x # new) (c # cs))
      else if startswith (c # cs) old
        then new @ str_replace (drop (length old) (c # cs)) old new
      else c # str_replace cs old new)"
  by pat_completeness auto
termination
  by (relation "measure (\<lambda>(s, old, new). length s)") auto

text \<open>\<^verbatim>\<open>s.find(c, start)\<close> for a one-character \<^verbatim>\<open>c\<close>: the lowest index at or after
  \<^verbatim>\<open>start\<close>, or \<^verbatim>\<open>-1\<close>.\<close>

fun find_index_of :: "char \<Rightarrow> string \<Rightarrow> nat option" where
  "find_index_of c [] = None"
| "find_index_of c (x # xs) =
     (if x = c then Some 0 else map_option Suc (find_index_of c xs))"

definition str_find :: "string \<Rightarrow> char \<Rightarrow> nat \<Rightarrow> int" where
  "str_find s c start =
     (case find_index_of c (drop start s) of
        None \<Rightarrow> - 1
      | Some i \<Rightarrow> int (start + i))"

text \<open>\<^verbatim>\<open>s[a:b]\<close>: a negative index counts from the end, and both are clamped to the
  string.\<close>

definition slice_index :: "nat \<Rightarrow> int \<Rightarrow> nat" where
  "slice_index n i = (if i < 0 then nat (max (i + int n) 0) else min (nat i) n)"

definition str_slice :: "string \<Rightarrow> int \<Rightarrow> int \<Rightarrow> string" where
  "str_slice s a b =
     (let lo = slice_index (length s) a; hi = slice_index (length s) b
      in take (hi - lo) (drop lo s))"

text \<open>\<^verbatim>\<open>str.isspace\<close> on the code points below 256, and \<^verbatim>\<open>s.strip()\<close>.\<close>

definition isspace :: "char \<Rightarrow> bool" where
  "isspace c = (of_char c \<in> {9, 10, 11, 12, 13, 28, 29, 30, 31, 32, 133, 160 :: nat})"

definition strip :: "string \<Rightarrow> string" where
  "strip s = rev (dropWhile isspace (rev (dropWhile isspace s)))"

text \<open>\<^verbatim>\<open>sep.join(xs)\<close>.\<close>

fun str_join :: "string \<Rightarrow> string list \<Rightarrow> string" where
  "str_join sep [] = []"
| "str_join sep [x] = x"
| "str_join sep (x # y # ys) = x @ sep @ str_join sep (y # ys)"

text \<open>\<^verbatim>\<open>str(n)\<close> for an integer and \<^verbatim>\<open>str(b)\<close> for a boolean.\<close>

fun str_of_nat :: "nat \<Rightarrow> string" where
  "str_of_nat n =
     (if n < 10 then [char_of (48 + n)]
      else str_of_nat (n div 10) @ [char_of (48 + n mod 10)])"

declare str_of_nat.simps [simp del]

definition str_of_int :: "int \<Rightarrow> string" where
  "str_of_int i = (if i < 0 then CHR ''-'' # str_of_nat (nat (- i)) else str_of_nat (nat i))"

definition str_of_bool :: "bool \<Rightarrow> string" where
  "str_of_bool b = (if b then ''True'' else ''False'')"

section \<open>Data model\<close>

text \<open>
  The semantic layer and the query are JSON objects. A metric or dimension definition is
  a dictionary with the keys \<^verbatim>\<open>name\<close>, \<^verbatim>\<open>sql\<close> and \<^verbatim>\<open>table\<close>; a join
  definition has \<^verbatim>\<open>one\<close>, \<^verbatim>\<open>many\<close> and \<^verbatim>\<open>join\<close>; a filter has \<^verbatim>\<open>field\<close>,
  \<^verbatim>\<open>operator\<close> and \<^verbatim>\<open>value\<close>. A key that \<^verbatim>\<open>.get(key, [])\<close> does not find is the
  empty list.
\<close>

record defn =
  name :: string
  sql :: string
  table :: string

record join_def =
  one :: string
  many :: string
  join :: string

record semantic_layer =
  metrics :: "defn list"
  dimensions :: "defn list"
  joins :: "join_def list"

text \<open>A filter value is a string, an integer or a boolean. The text that \<^verbatim>\<open>str\<close>
  gives for a float is not modelled.\<close>

datatype filter_value = VStr string | VInt int | VBool bool

record filter_clause =
  field :: string
  operator :: string
  fvalue :: filter_value

record query =
  metrics_requested :: "string list"
  dimensions_requested :: "string list"
  filters_requested :: "filter_clause list"

text \<open>
  Every failure of the source is a \<^verbatim>\<open>ValueError\<close> told apart by its message; the
  constructors carry the names the message interpolates. \<open>IndexError\<close> is what
  \<^verbatim>\<open>tables[0]\<close> raises on an empty list.
\<close>

datatype error =
    UnknownMetricError string
  | UnknownDimensionError string
  | UnknownFilterFieldError string
  | MissingJoinError string string
  | NoTablesError
  | IndexError

section \<open>Helper functions\<close>

definition parse_date_trunc :: "string \<Rightarrow> string \<times> string option" where
  "parse_date_trunc field_name =
     (if endswith field_name ''__week''
        then (str_replace field_name ''__week'' '''', Some ''WEEK'')
      else if endswith field_name ''__month''
        then (str_replace field_name ''__month'' '''', Some ''MONTH'')
      else if endswith field_name ''__year''
        then (str_replace field_name ''__year'' '''', Some ''YEAR'')
      else (field_name, None))"

fun get_definition :: "string \<Rightarrow> defn list \<Rightarrow> defn option" where
  "get_definition n [] = None"
| "get_definition n (definition # definitions) =
     (if name definition = n then Some definition else get_definition n definitions)"

fun find_join_definition :: "string \<Rightarrow> string \<Rightarrow> join_def list \<Rightarrow> join_def option" where
  "find_join_definition table_a table_b [] = None"
| "find_join_definition table_a table_b (jd # join_defs) =
     (if one jd = table_a \<and> many jd = table_b then Some jd
      else if one jd = table_b \<and> many jd = table_a then Some jd
      else find_join_definition table_a table_b join_defs)"

section \<open>The compiler: \<^verbatim>\<open>generate_sql_query\<close>\<close>

subsection \<open>Collecting the definitions and the tables used\<close>

text \<open>
  \<^verbatim>\<open>tables_used\<close> is a Python \<^verbatim>\<open>set\<close> of table names. It is modelled by the list of
  its elements without repetition, in the order of their first insertion: emptiness,
  \<^verbatim>\<open>len\<close> and membership are those of the set. The order in which Python iterates over
  a set of strings is not fixed by the language (it follows the hashes, which change from
  one run to the next), so \<^verbatim>\<open>list(tables_used)\<close> is a parameter \<open>list_of\<close> of the
  compiler: it maps the set to the list that the conversion yields. A conversion is
  admissible for a set when it yields each element of the set exactly once.
\<close>

definition set_add :: "string list \<Rightarrow> string \<Rightarrow> string list" where
  "set_add s x = (if x \<in> set s then s else s @ [x])"


fun collect_metrics ::
  "semantic_layer \<Rightarrow> string list \<Rightarrow> defn list \<times> string list
     \<Rightarrow> error + defn list \<times> string list" where
  "collect_metrics sl [] acc = Inr acc"
| "collect_metrics sl (metric_name # rest) (metrics_definitions, tables_used) =
     (case get_definition metric_name (metrics sl) of
        None \<Rightarrow> Inl (UnknownMetricError metric_name)
      | Some metric_def \<Rightarrow>
          collect_metrics sl rest
            (metrics_definitions @ [metric_def], set_add tables_used (table metric_def)))"

fun collect_dimensions ::
  "semantic_layer \<Rightarrow> string list \<Rightarrow> (defn \<times> string option \<times> string) list \<times> string list
     \<Rightarrow> error + (defn \<times> string option \<times> string) list \<times> string list" where
  "collect_dimensions sl [] acc = Inr acc"
| "collect_dimensions sl (dim_name # rest) (dimensions_definitions, tables_used) =
     (case parse_date_trunc dim_name of (base_dim_name, date_grain) \<Rightarrow>
        (case get_definition base_dim_name (dimensions sl) of
           None \<Rightarrow> Inl (UnknownDimensionError dim_name)
         | Some dim_def \<Rightarrow>
             collect_dimensions sl rest
               (dimensions_definitions @ [(dim_def, date_grain, dim_name)],
                set_add tables_used (table dim_def))))"

subsection \<open>SELECT items and GROUP BY terms\<close>

text \<open>
  The expression of a metric, lines 99 to 115; the filter loop repeats the same text at
  lines 194 to 207.
\<close>

definition metric_sql_expr :: "bool \<Rightarrow> defn \<Rightarrow> string" where
  "metric_sql_expr multiple_tables metric_def =
     (let sql_expr = sql metric_def in
      if CHR ''('' \<in> set sql_expr \<and> CHR '')'' \<in> set sql_expr then
        (let func_start = str_find sql_expr (CHR ''('') 0;
             func_end = str_find sql_expr (CHR '')'') (nat func_start);
             func = strip (str_slice sql_expr 0 func_start);
             column = strip (str_slice sql_expr (func_start + 1) func_end);
             column' = (if multiple_tables then table metric_def @ ''.'' @ column else column)
         in func @ ''('' @ column' @ '')'')
      else if multiple_tables then table metric_def @ ''.'' @ sql_expr
      else sql_expr)"

definition metric_select :: "bool \<Rightarrow> defn \<Rightarrow> string" where
  "metric_select multiple_tables metric_def =
     metric_sql_expr multiple_tables metric_def @ '' AS '' @ name metric_def"

text \<open>
  The expression of a dimension, lines 122 to 134: qualified when several tables are
  involved, then wrapped in \<^verbatim>\<open>DATE_TRUNC\<close> when the requested name carried a grain. The
  filter loop repeats the same text at lines 181 to 186.
\<close>

definition dimension_sql_expr :: "bool \<Rightarrow> defn \<Rightarrow> string option \<Rightarrow> string" where
  "dimension_sql_expr multiple_tables dim_def date_grain =
     (let sql_expr = (if multiple_tables then table dim_def @ ''.'' @ sql dim_def
                      else sql dim_def)
      in case date_grain of
           Some g \<Rightarrow> ''DATE_TRUNC('' @ sql_expr @ '', '' @ g @ '')''
         | None \<Rightarrow> sql_expr)"

definition dimension_select :: "bool \<Rightarrow> defn \<times> string option \<times> string \<Rightarrow> string" where
  "dimension_select multiple_tables d =
     (case d of (dim_def, date_grain, dim_name) \<Rightarrow>
        dimension_sql_expr multiple_tables dim_def date_grain @ '' AS '' @ dim_name)"

definition group_by_term :: "bool \<Rightarrow> defn \<times> string option \<times> string \<Rightarrow> string" where
  "group_by_term multiple_tables d =
     (case d of (dim_def, date_grain, dim_name) \<Rightarrow>
        dimension_sql_expr multiple_tables dim_def date_grain)"

subsection \<open>FROM and JOIN clauses\<close>

definition join_line :: "string \<Rightarrow> join_def \<Rightarrow> string" where
  "join_line other_table jd = ''\<newline>JOIN '' @ other_table @ '' ON '' @ join jd"

fun join_tables ::
  "string \<Rightarrow> join_def list \<Rightarrow> string list \<Rightarrow> string \<Rightarrow> error + string" where
  "join_tables primary_table jds [] from_clause = Inr from_clause"
| "join_tables primary_table jds (other_table # rest) from_clause =
     (case (case find_join_definition primary_table other_table jds of
              None \<Rightarrow> find_join_definition other_table primary_table jds
            | Some jd \<Rightarrow> Some jd) of
        None \<Rightarrow> Inl (MissingJoinError primary_table other_table)
      | Some jd \<Rightarrow>
          join_tables primary_table jds rest (from_clause @ join_line other_table jd))"

definition build_from_clause ::
  "(string list \<Rightarrow> string list) \<Rightarrow> string list \<Rightarrow> join_def list \<Rightarrow> error + string" where
  "build_from_clause list_of tables_used jds =
     (if tables_used = [] then Inl NoTablesError
      else if length tables_used = 1 then
        (case list_of tables_used of
           [] \<Rightarrow> Inl IndexError
         | t # _ \<Rightarrow> Inr (''FROM '' @ t))
      else
        (case list_of tables_used of
           [] \<Rightarrow> Inl IndexError
         | primary_table # others \<Rightarrow>
             join_tables primary_table jds others (''FROM '' @ primary_table)))"

subsection \<open>WHERE and HAVING clauses\<close>

definition value_expr :: "filter_value \<Rightarrow> string" where
  "value_expr v =
     (case v of
        VStr s \<Rightarrow> [CHR 0x27] @ s @ [CHR 0x27]
      | VInt i \<Rightarrow> str_of_int i
      | VBool b \<Rightarrow> str_of_bool b)"

definition filter_expression :: "string \<Rightarrow> filter_clause \<Rightarrow> string" where
  "filter_expression sql_expr filt =
     sql_expr @ '' '' @ operator filt @ '' '' @ value_expr (fvalue filt)"

fun build_filters ::
  "bool \<Rightarrow> semantic_layer \<Rightarrow> filter_clause list \<Rightarrow> string list \<times> string list
     \<Rightarrow> error + string list \<times> string list" where
  "build_filters multiple_tables sl [] acc = Inr acc"
| "build_filters multiple_tables sl (filt # rest) (where_clauses, having_clauses) =
     (case parse_date_trunc (field filt) of (base_field_name, date_grain) \<Rightarrow>
        (case get_definition base_field_name (dimensions sl) of
           Some dim_def \<Rightarrow>
             build_filters multiple_tables sl rest
               (where_clauses @
                  [filter_expression (dimension_sql_expr multiple_tables dim_def date_grain) filt],
                having_clauses)
         | None \<Rightarrow>
             (case get_definition base_field_name (metrics sl) of
                Some metric_def \<Rightarrow>
                  build_filters multiple_tables sl rest
                    (where_clauses,
                     having_clauses @
                       [filter_expression (metric_sql_expr multiple_tables metric_def) filt])
              | None \<Rightarrow> Inl (UnknownFilterFieldError (field filt)))))"

subsection \<open>Assembling the query\<close>

text \<open>
  The local variables that the function has built when it reaches line 219. The SELECT
  clause is the joined \<open>select_items\<close>, or \<^verbatim>\<open>*\<close> when there is none.
\<close>

record clauses =
  select_items :: "string list"
  from_clause :: string
  where_clauses :: "string list"
  group_by_terms :: "string list"
  having_clauses :: "string list"

definition select_clause :: "string list \<Rightarrow> string" where
  "select_clause items = (if items \<noteq> [] then str_join '', '' items else ''*'')"

definition assemble :: "clauses \<Rightarrow> string" where
  "assemble c =
     ''SELECT '' @ select_clause (select_items c) @ ''\<newline>'' @ from_clause c
     @ (if where_clauses c \<noteq> []
        then ''\<newline>WHERE '' @ str_join '' AND '' (where_clauses c) else [])
     @ (if group_by_terms c \<noteq> []
        then ''\<newline>GROUP BY '' @ str_join '', '' (group_by_terms c) else [])
     @ (if having_clauses c \<noteq> []
        then ''\<newline>HAVING '' @ str_join '' AND '' (having_clauses c) else [])"

text \<open>Lines 72 to 91: both collecting loops, the second continuing with the set of the
  first.\<close>

definition collect ::
  "semantic_layer \<Rightarrow> query
     \<Rightarrow> error + defn list \<times> (defn \<times> string option \<times> string) list \<times> string list" where
  "collect sl q =
     (case collect_metrics sl (metrics_requested q) ([], []) of
        Inl e \<Rightarrow> Inl e
      | Inr (metrics_definitions, tables_used0) \<Rightarrow>
          (case collect_dimensions sl (dimensions_requested q) ([], tables_used0) of
             Inl e \<Rightarrow> Inl e
           | Inr (dimensions_definitions, tables_used) \<Rightarrow>
               Inr (metrics_definitions, dimensions_definitions, tables_used)))"

text \<open>Lines 93 to 217: the clauses, in the order in which the source builds them, so
  that the first failure is the one the source raises.\<close>

definition compile_clauses ::
  "(string list \<Rightarrow> string list) \<Rightarrow> query \<Rightarrow> semantic_layer \<Rightarrow> error + clauses" where
  "compile_clauses list_of q sl =
     (case collect sl q of
        Inl e \<Rightarrow> Inl e
      | Inr (metrics_definitions, dimensions_definitions, tables_used) \<Rightarrow>
     (let multiple_tables = (length tables_used > 1);
          metrics_sql = map (metric_select multiple_tables) metrics_definitions;
          dimensions_sql = map (dimension_select multiple_tables) dimensions_definitions;
          terms = map (group_by_term multiple_tables) dimensions_definitions
      in case build_from_clause list_of tables_used (joins sl) of
           Inl e \<Rightarrow> Inl e
         | Inr fc \<Rightarrow>
        (case build_filters multiple_tables sl (filters_requested q) ([], []) of
           Inl e \<Rightarrow> Inl e
         | Inr (wh, hv) \<Rightarrow>
             Inr \<lparr>select_items = metrics_sql @ dimensions_sql, from_clause = fc,
                  where_clauses = wh, group_by_terms = terms, having_clauses = hv\<rparr>)))"

definition generate_sql_query ::
  "(string list \<Rightarrow> string list) \<Rightarrow> query \<Rightarrow> semantic_layer \<Rightarrow> error + string" where
  "generate_sql_query list_of q sl =
     (case compile_clauses list_of q sl of
        Inl e \<Rightarrow> Inl e
      | Inr c \<Rightarrow> Inr (assemble c))"

section \<open>Vocabulary of the specification\<close>

text \<open>
  First-appearance order, as the specification words it: the distinct elements of a
  list, each at the place of its first occurrence.
\<close>

fun first_appearance :: "string list \<Rightarrow> string list" where
  "first_appearance [] = []"
| "first_appearance (x # xs) = x # filter (\<lambda>y. y \<noteq> x) (first_appearance xs)"

text \<open>
  The resolver as the specification words it: a trailing grain suffix is removed from
  the name. It is compared below with \<open>parse_date_trunc\<close> on the names in which the
  suffix occurs at the end only.
\<close>

definition strip_trailing_grain :: "string \<Rightarrow> string \<times> string option" where
  "strip_trailing_grain n =
     (if endswith n ''__week'' then (take (length n - 6) n, Some ''WEEK'')
      else if endswith n ''__month'' then (take (length n - 7) n, Some ''MONTH'')
      else if endswith n ''__year'' then (take (length n - 6) n, Some ''YEAR'')
      else (n, None))"

definition suffix_only_at_end :: "string \<Rightarrow> string \<Rightarrow> bool" where
  "suffix_only_at_end n suf =
     (\<forall>k < length n - length suf. \<not> startswith (drop k n) suf)"

text \<open>An edge connects two tables when it names them, in either direction.\<close>

definition connects :: "string \<Rightarrow> string \<Rightarrow> join_def \<Rightarrow> bool" where
  "connects a b jd = ((one jd = a \<and> many jd = b) \<or> (one jd = b \<and> many jd = a))"

text \<open>The definitions that a filter resolves to: \<^verbatim>\<open>dim_def\<close> and \<^verbatim>\<open>metric_def\<close> of
  lines 177 and 178, and the grain of line 174.\<close>

definition filter_grain :: "filter_clause \<Rightarrow> string option" where
  "filter_grain filt = snd (parse_date_trunc (field filt))"

definition filter_dim_def :: "semantic_layer \<Rightarrow> filter_clause \<Rightarrow> defn option" where
  "filter_dim_def sl filt =
     get_definition (fst (parse_date_trunc (field filt))) (dimensions sl)"

definition filter_metric_def :: "semantic_layer \<Rightarrow> filter_clause \<Rightarrow> defn option" where
  "filter_metric_def sl filt =
     get_definition (fst (parse_date_trunc (field filt))) (metrics sl)"

text \<open>The predicate that a filter contributes: to WHERE when its field resolves to a
  dimension (line 191), to HAVING when it resolves to a metric only (line 212).\<close>

definition unknown_filter :: "semantic_layer \<Rightarrow> filter_clause \<Rightarrow> bool" where
  "unknown_filter sl filt = (filter_dim_def sl filt = None \<and> filter_metric_def sl filt = None)"

definition where_predicate :: "bool \<Rightarrow> semantic_layer \<Rightarrow> filter_clause \<Rightarrow> string" where
  "where_predicate multiple_tables sl filt =
     filter_expression
       (dimension_sql_expr multiple_tables (the (filter_dim_def sl filt)) (filter_grain filt)) filt"

definition having_predicate :: "bool \<Rightarrow> semantic_layer \<Rightarrow> filter_clause \<Rightarrow> string" where
  "having_predicate multiple_tables sl filt =
     filter_expression (metric_sql_expr multiple_tables (the (filter_metric_def sl filt))) filt"

text \<open>The WHERE and the HAVING predicates of a list of filters, in the order of the
  filters.\<close>

definition where_list :: "bool \<Rightarrow> semantic_layer \<Rightarrow> filter_clause list \<Rightarrow> string list" where
  "where_list multiple_tables sl fs =
     map (where_predicate multiple_tables sl) (filter (\<lambda>f. filter_dim_def sl f \<noteq> None) fs)"

definition having_list :: "bool \<Rightarrow> semantic_layer \<Rightarrow> filter_clause list \<Rightarrow> string list" where
  "having_list multiple_tables sl fs =
     map (having_predicate multiple_tables sl)
       (filter (\<lambda>f. filter_dim_def sl f = None \<and> filter_metric_def sl f \<noteq> None) fs)"

text \<open>A table with no edge to the anchor, and the JOIN lines of the tables that have
  one.\<close>

definition unconnected :: "string \<Rightarrow> join_def list \<Rightarrow> string \<Rightarrow> bool" where
  "unconnected p jds t = (find (connects p t) jds = None)"

definition join_lines :: "string \<Rightarrow> join_def list \<Rightarrow> string list \<Rightarrow> string" where
  "join_lines p jds others =
     concat (map (\<lambda>t. ''\<newline>JOIN '' @ t @ '' ON '' @ join (the (find (connects p t) jds))) others)"

text \<open>The triple that the dimension loop appends at line 90 for a requested name that
  resolves.\<close>

definition dim_triple :: "semantic_layer \<Rightarrow> string \<Rightarrow> defn \<times> string option \<times> string" where
  "dim_triple sl n = (the (get_definition (fst (parse_date_trunc n)) (dimensions sl)),
                      snd (parse_date_trunc n), n)"

section \<open>The test cases of the source\<close>

text \<open>
  The inputs and the expected outputs of \<^verbatim>\<open>test_query7\<close> and \<^verbatim>\<open>test_query8\<close>, which
  accept either order of the two tables, and the further inputs on which the properties
  below are evaluated.
\<close>

definition semantic_layer_7 :: semantic_layer where
  "semantic_layer_7 =
     \<lparr>metrics =
        [\<lparr>name = ''total_revenue'', sql = ''SUM(sale_price)'', table = ''order_items''\<rparr>],
      dimensions =
        [\<lparr>name = ''order_id'', sql = ''order_id'', table = ''order_items''\<rparr>,
         \<lparr>name = ''gender'', sql = ''gender'', table = ''orders''\<rparr>,
         \<lparr>name = ''status'', sql = ''status'', table = ''orders''\<rparr>],
      joins =
        [\<lparr>one = ''orders'', many = ''order_items'',
          join = ''order_items.order_id = orders.order_id''\<rparr>]\<rparr>"

definition query_7 :: query where
  "query_7 =
     \<lparr>metrics_requested = [''total_revenue''],
      dimensions_requested = [''order_id'', ''gender'', ''status''],
      filters_requested =
        [\<lparr>field = ''total_revenue'', operator = ''>'', fvalue = VInt 1000\<rparr>]\<rparr>"

definition metrics_definitions_7 :: "defn list" where
  "metrics_definitions_7 =
     [\<lparr>name = ''total_revenue'', sql = ''SUM(sale_price)'', table = ''order_items''\<rparr>]"

definition dimensions_definitions_7 :: "(defn \<times> string option \<times> string) list" where
  "dimensions_definitions_7 =
     [(\<lparr>name = ''order_id'', sql = ''order_id'', table = ''order_items''\<rparr>, None, ''order_id''),
      (\<lparr>name = ''gender'', sql = ''gender'', table = ''orders''\<rparr>, None, ''gender''),
      (\<lparr>name = ''status'', sql = ''status'', table = ''orders''\<rparr>, None, ''status'')]"

definition expected_sql_7_1 :: string where
  "expected_sql_7_1 = ''SELECT SUM(order_items.sale_price) AS total_revenue, order_items.order_id AS order_id, orders.gender AS gender, orders.status AS status\<newline>FROM order_items\<newline>JOIN orders ON order_items.order_id = orders.order_id\<newline>GROUP BY order_items.order_id, orders.gender, orders.status\<newline>HAVING SUM(order_items.sale_price) > 1000''"





definition semantic_layer_8 :: semantic_layer where
  "semantic_layer_8 =
     \<lparr>metrics =
        [\<lparr>name = ''total_revenue'', sql = ''SUM(sale_price)'', table = ''order_items''\<rparr>],
      dimensions =
        [\<lparr>name = ''ordered_date'', sql = ''created_at'', table = ''orders''\<rparr>],
      joins =
        [\<lparr>one = ''orders'', many = ''order_items'',
          join = ''order_items.order_id = orders.order_id''\<rparr>]\<rparr>"

definition query_8 :: query where
  "query_8 =
     \<lparr>metrics_requested = [''total_revenue''],
      dimensions_requested = [''ordered_date__week''],
      filters_requested =
        [\<lparr>field = ''ordered_date'', operator = ''>='', fvalue = VStr ''2024-01-01''\<rparr>]\<rparr>"

definition expected_sql_8_1 :: string where
  "expected_sql_8_1 = ''SELECT SUM(order_items.sale_price) AS total_revenue, DATE_TRUNC(orders.created_at, WEEK) AS ordered_date__week\<newline>FROM order_items\<newline>JOIN orders ON order_items.order_id = orders.order_id\<newline>WHERE orders.created_at >= '' @ [CHR 0x27] @ ''2024-01-01'' @ [CHR 0x27] @ ''\<newline>GROUP BY DATE_TRUNC(orders.created_at, WEEK)''"

definition expected_sql_8_2 :: string where
  "expected_sql_8_2 = ''SELECT SUM(order_items.sale_price) AS total_revenue, DATE_TRUNC(orders.created_at, WEEK) AS ordered_date__week\<newline>FROM orders\<newline>JOIN order_items ON order_items.order_id = orders.order_id\<newline>WHERE orders.created_at >= '' @ [CHR 0x27] @ ''2024-01-01'' @ [CHR 0x27] @ ''\<newline>GROUP BY DATE_TRUNC(orders.created_at, WEEK)''"

definition query_filters_only :: query where
  "query_filters_only =
     \<lparr>metrics_requested = [], dimensions_requested = [],
      filters_requested =
        [\<lparr>field = ''no_such_field'', operator = ''='', fvalue = VStr ''x''\<rparr>]\<rparr>"


definition query_1 :: query where
  "query_1 =
     \<lparr>metrics_requested = [''total_revenue''], dimensions_requested = [],
      filters_requested = []\<rparr>"




definition semantic_layer_plain :: semantic_layer where
  "semantic_layer_plain =
     semantic_layer_7\<lparr>metrics :=
       [\<lparr>name = ''price'', sql = ''sale_price'', table = ''order_items''\<rparr>]\<rparr>"

definition query_plain :: query where
  "query_plain =
     \<lparr>metrics_requested = [''price''], dimensions_requested = [''gender''],
      filters_requested = []\<rparr>"

definition semantic_layer_users :: semantic_layer where
  "semantic_layer_users =
     \<lparr>metrics =
        [\<lparr>name = ''total_revenue'', sql = ''SUM(sale_price)'', table = ''order_items''\<rparr>],
      dimensions =
        [\<lparr>name = ''gender'', sql = ''gender'', table = ''orders''\<rparr>,
         \<lparr>name = ''country'', sql = ''country'', table = ''users''\<rparr>],
      joins =
        [\<lparr>one = ''orders'', many = ''order_items'',
          join = ''order_items.order_id = orders.order_id''\<rparr>]\<rparr>"

definition query_users :: query where
  "query_users =
     \<lparr>metrics_requested = [''total_revenue''], dimensions_requested = [''gender''],
      filters_requested =
        [\<lparr>field = ''country'', operator = ''='', fvalue = VStr ''UK''\<rparr>]\<rparr>"






definition semantic_layer_spaces :: semantic_layer where
  "semantic_layer_spaces =
     semantic_layer_7\<lparr>metrics :=
       [\<lparr>name = ''total_revenue'', sql = '' SUM ( sale_price )'', table = ''order_items''\<rparr>]\<rparr>"


section \<open>Properties of the string primitives\<close>

lemma startswith_iff: "startswith s p \<longleftrightarrow> (\<exists>r. s = p @ r)"
proof (induction s p rule: startswith.induct)
  case (1 s) show ?case by simp
next
  case (2 p ps) show ?case by simp
next
  case (3 c cs p ps) then show ?case by auto
qed

lemma endswith_iff: "endswith s suf \<longleftrightarrow> (\<exists>r. s = r @ suf)"
proof -
  have "endswith s suf \<longleftrightarrow> (\<exists>r. rev s = rev suf @ r)"
    by (simp add: endswith_def startswith_iff)
  also have "\<dots> \<longleftrightarrow> (\<exists>r. s = r @ suf)"
  proof
    assume "\<exists>r. rev s = rev suf @ r"
    then obtain r where "rev s = rev suf @ r" ..
    then have "s = rev r @ suf" by (simp add: rev_swap)
    then show "\<exists>r. s = r @ suf" ..
  next
    assume "\<exists>r. s = r @ suf"
    then obtain r where "s = r @ suf" ..
    then have "rev s = rev suf @ rev r" by simp
    then show "\<exists>r. rev s = rev suf @ r" ..
  qed
  finally show ?thesis .
qed

section \<open>The collecting loops\<close>

lemma foldl_set_add_set: "set (foldl set_add ts xs) = set ts \<union> set xs"
  by (induction xs arbitrary: ts) (auto simp: set_add_def)

lemma foldl_set_add_distinct: "distinct ts \<Longrightarrow> distinct (foldl set_add ts xs)"
  by (induction xs arbitrary: ts) (auto simp: set_add_def)

lemma foldl_set_add_first_appearance_gen:
  "foldl set_add ts xs = ts @ filter (\<lambda>y. y \<notin> set ts) (first_appearance xs)"
proof (induction xs arbitrary: ts)
  case Nil
  show ?case by simp
next
  case (Cons x xs)
  show ?case
  proof (cases "x \<in> set ts")
    case True
    then have "filter (\<lambda>y. y \<notin> set ts) (filter (\<lambda>y. y \<noteq> x) (first_appearance xs))
      = filter (\<lambda>y. y \<notin> set ts) (first_appearance xs)"
      by (auto intro: filter_cong)
    with True Cons [of ts] show ?thesis by (simp add: set_add_def)
  next
    case False
    have "filter (\<lambda>y. y \<notin> set (ts @ [x])) (first_appearance xs)
      = filter (\<lambda>y. y \<notin> set ts) (filter (\<lambda>y. y \<noteq> x) (first_appearance xs))"
      by (auto intro: filter_cong)
    with False Cons [of "ts @ [x]"] show ?thesis by (simp add: set_add_def)
  qed
qed

lemma foldl_set_add_first_appearance: "foldl set_add [] xs = first_appearance xs"
  by (simp add: foldl_set_add_first_appearance_gen)

lemma first_appearance_set: "set (first_appearance xs) = set xs"
  by (induction xs) auto

lemma first_appearance_distinct: "distinct (first_appearance xs)"
  by (induction xs) (auto simp: first_appearance_set)

lemma collect_metrics_Inr:
  "collect_metrics sl ns (ds, ts) = Inr (ds', ts') \<Longrightarrow>
     (\<forall>n \<in> set ns. get_definition n (metrics sl) \<noteq> None) \<and>
     ds' = ds @ map (\<lambda>n. the (get_definition n (metrics sl))) ns \<and>
     ts' = foldl set_add ts (map (\<lambda>n. table (the (get_definition n (metrics sl)))) ns)"
proof (induction ns arbitrary: ds ts)
  case Nil
  then show ?case by simp
next
  case (Cons n ns)
  from Cons.prems obtain d where d: "get_definition n (metrics sl) = Some d"
    by (cases "get_definition n (metrics sl)") auto
  with Cons.prems
  have "collect_metrics sl ns (ds @ [d], set_add ts (table d)) = Inr (ds', ts')"
    by simp
  from Cons.IH [OF this] d show ?case by simp
qed

lemma collect_dimensions_Inr:
  "collect_dimensions sl ns (ds, ts) = Inr (ds', ts') \<Longrightarrow>
     (\<forall>n \<in> set ns. get_definition (fst (parse_date_trunc n)) (dimensions sl) \<noteq> None) \<and>
     ds' = ds @ map (dim_triple sl) ns \<and>
     ts' = foldl set_add ts (map (\<lambda>n. table (fst (dim_triple sl n))) ns)"
proof (induction ns arbitrary: ds ts)
  case Nil
  then show ?case by simp
next
  case (Cons n ns)
  obtain b g where bg: "parse_date_trunc n = (b, g)"
    by (cases "parse_date_trunc n")
  from Cons.prems bg obtain d where d: "get_definition b (dimensions sl) = Some d"
    by (cases "get_definition b (dimensions sl)") auto
  with Cons.prems bg
  have "collect_dimensions sl ns (ds @ [(d, g, n)], set_add ts (table d)) = Inr (ds', ts')"
    by simp
  from Cons.IH [OF this] d bg show ?case by (simp add: dim_triple_def)
qed

section \<open>The join planner\<close>

lemma find_join_definition_hit: "connects a b jd \<Longrightarrow> find_join_definition a b (jd # jds) = Some jd"
  unfolding connects_def find_join_definition.simps by (auto simp only: if_True if_False split: if_splits)

lemma find_join_definition_miss: "\<not> connects a b jd \<Longrightarrow> find_join_definition a b (jd # jds) = find_join_definition a b jds"
  unfolding connects_def find_join_definition.simps by (auto simp only: if_True if_False de_Morgan_disj split: if_splits)

lemma find_join_definition_find:
  "find_join_definition a b jds = find (connects a b) jds"
proof (induction jds)
  case Nil
  show ?case by simp
next
  case (Cons jd jds)
  show ?case
  proof (cases "connects a b jd")
    case True
    then show ?thesis by (simp only: find_join_definition_hit [OF True] find.simps if_True)
  next
    case False
    show ?thesis by (simp only: find_join_definition_miss [OF False] find.simps False if_False Cons)
  qed
qed

lemma connects_sym: "connects a b jd = connects b a jd"
  by (auto simp: connects_def)

lemma edge_lookup:
  "(case find_join_definition p t jds of
      None \<Rightarrow> find_join_definition t p jds | Some jd \<Rightarrow> Some jd) = find (connects p t) jds"
proof -
  have "connects t p = connects p t" by (rule ext) (rule connects_sym)
  then show ?thesis by (simp add: find_join_definition_find split: option.splits)
qed

lemma join_tables_eq:
  "join_tables p jds others fc =
     (case find (unconnected p jds) others of
        Some t \<Rightarrow> Inl (MissingJoinError p t)
      | None \<Rightarrow> Inr (fc @ join_lines p jds others))"
proof (induction others arbitrary: fc)
  case Nil
  show ?case by (simp add: join_lines_def)
next
  case (Cons t others)
  show ?case
  proof (cases "find (connects p t) jds")
    case None
    then have "unconnected p jds t" by (simp add: unconnected_def)
    with None show ?thesis by (simp add: edge_lookup)
  next
    case (Some jd)
    then have u: "\<not> unconnected p jds t" by (simp add: unconnected_def)
    have "join_lines p jds (t # others) = join_line t jd @ join_lines p jds others"
      using Some by (simp add: join_lines_def join_line_def)
    with Some u Cons [of "fc @ join_line t jd"] show ?thesis
      by (simp add: edge_lookup split: option.splits)
  qed
qed

section \<open>The filter loop\<close>

lemma build_filters_step:
  "build_filters mt sl (f # fs) (wh, hv) =
     (case filter_dim_def sl f of
        Some dd \<Rightarrow> build_filters mt sl fs (wh @ [where_predicate mt sl f], hv)
      | None \<Rightarrow>
          (case filter_metric_def sl f of
             Some md \<Rightarrow> build_filters mt sl fs (wh, hv @ [having_predicate mt sl f])
           | None \<Rightarrow> Inl (UnknownFilterFieldError (field f))))"
  by (cases "parse_date_trunc (field f)")
     (simp add: filter_dim_def_def filter_metric_def_def where_predicate_def
        having_predicate_def filter_grain_def split: option.splits)

lemma build_filters_eq:
  "build_filters mt sl fs (wh, hv) =
     (case find (unknown_filter sl) fs of
        Some f \<Rightarrow> Inl (UnknownFilterFieldError (field f))
      | None \<Rightarrow>
          Inr (wh @ map (where_predicate mt sl) (filter (\<lambda>f. filter_dim_def sl f \<noteq> None) fs),
               hv @ map (having_predicate mt sl) (filter (\<lambda>f. filter_dim_def sl f = None) fs)))"
proof (induction fs arbitrary: wh hv)
  case Nil
  show ?case by simp
next
  case (Cons f fs)
  show ?case
  proof (cases "filter_dim_def sl f")
    case (Some dd)
    then have u: "\<not> unknown_filter sl f" by (simp add: unknown_filter_def)
    have "build_filters mt sl (f # fs) (wh, hv) =
            build_filters mt sl fs (wh @ [where_predicate mt sl f], hv)"
      by (simp only: build_filters_step Some option.case)
    with u Some show ?thesis
      by (simp add: Cons split: option.splits)
  next
    case None
    note nd = this
    show ?thesis
    proof (cases "filter_metric_def sl f")
      case None
      with nd have u: "unknown_filter sl f" by (simp add: unknown_filter_def)
      have "build_filters mt sl (f # fs) (wh, hv) = Inl (UnknownFilterFieldError (field f))"
        by (simp only: build_filters_step nd None option.case)
      with u show ?thesis by simp
    next
      case (Some md)
      with nd have u: "\<not> unknown_filter sl f" by (simp add: unknown_filter_def)
      have "build_filters mt sl (f # fs) (wh, hv) =
              build_filters mt sl fs (wh, hv @ [having_predicate mt sl f])"
        by (simp only: build_filters_step nd Some option.case)
      with u nd show ?thesis
        by (simp add: Cons split: option.splits)
    qed
  qed
qed

section \<open>The whole compile\<close>

lemma collect_Inr:
  assumes "collect sl q = Inr (mds, dds, ts)"
  shows "mds = map (\<lambda>n. the (get_definition n (metrics sl))) (metrics_requested q)"
    and "dds = map (dim_triple sl) (dimensions_requested q)"
    and "ts = first_appearance (map table mds @ map (\<lambda>d. table (fst d)) dds)"
    and "\<forall>n \<in> set (metrics_requested q). get_definition n (metrics sl) \<noteq> None"
    and "\<forall>n \<in> set (dimensions_requested q).
           get_definition (fst (parse_date_trunc n)) (dimensions sl) \<noteq> None"
proof -
  from assms obtain ts0 where
    m: "collect_metrics sl (metrics_requested q) ([], []) = Inr (mds, ts0)" and
    d: "collect_dimensions sl (dimensions_requested q) ([], ts0) = Inr (dds, ts)"
    by (auto simp: collect_def split: sum.splits)
  note M = collect_metrics_Inr [OF m] and D = collect_dimensions_Inr [OF d]
  from M show 1: "mds = map (\<lambda>n. the (get_definition n (metrics sl))) (metrics_requested q)"
    by simp
  from D show 2: "dds = map (dim_triple sl) (dimensions_requested q)"
    by simp
  from M have t0: "ts0 = foldl set_add [] (map table mds)"
    by (simp add: 1 comp_def)
  from D have "ts = foldl set_add ts0 (map (\<lambda>d. table (fst d)) dds)"
    by (simp add: 2 comp_def)
  with t0 have "ts = foldl set_add [] (map table mds @ map (\<lambda>d. table (fst d)) dds)"
    by simp
  then show "ts = first_appearance (map table mds @ map (\<lambda>d. table (fst d)) dds)"
    by (simp only: foldl_set_add_first_appearance)
  from M show "\<forall>n \<in> set (metrics_requested q). get_definition n (metrics sl) \<noteq> None"
    by simp
  from D show "\<forall>n \<in> set (dimensions_requested q).
           get_definition (fst (parse_date_trunc n)) (dimensions sl) \<noteq> None"
    by simp
qed


lemma generate_sql_query_Inr:
  "generate_sql_query list_of q sl = Inr out \<longleftrightarrow>
     (\<exists>c. compile_clauses list_of q sl = Inr c \<and> out = assemble c)"
  by (auto simp: generate_sql_query_def split: sum.splits)


lemma collect_empty:
  "metrics_requested q = [] \<Longrightarrow> dimensions_requested q = [] \<Longrightarrow>
     collect sl q = Inr ([], [], [])"
  by (simp add: collect_def)

lemma compile_clauses_no_tables:
  "metrics_requested q = [] \<Longrightarrow> dimensions_requested q = [] \<Longrightarrow>
     compile_clauses list_of q sl = Inl NoTablesError"
  by (simp add: compile_clauses_def collect_empty build_from_clause_def)


lemma build_from_clause_Inr:
  assumes "build_from_clause list_of ts jds = Inr fc"
  obtains p others where "list_of ts = p # others"
    and "fc = ''FROM '' @ p @ (if length ts = 1 then [] else join_lines p jds others)"
    and "ts \<noteq> []"
    and "length ts \<noteq> 1 \<Longrightarrow> find (unconnected p jds) others = None"
  using assms
  by (auto simp: build_from_clause_def join_tables_eq split: list.splits option.splits if_splits)

lemma collect_7:
  "collect semantic_layer_7 query_7 =
     Inr (metrics_definitions_7, dimensions_definitions_7, [''order_items'', ''orders''])"
  by code_simp



text \<open>\<^verbatim>\<open>test_query8\<close>: the compiler returns the first expected text when the set is
  iterated in insertion order and the second when it is iterated in reverse.\<close>

lemma generate_8_id:
  "generate_sql_query id query_8 semantic_layer_8 = Inr expected_sql_8_1"
  by code_simp

lemma generate_8_rev:
  "generate_sql_query rev query_8 semantic_layer_8 = Inr expected_sql_8_2"
  by code_simp

section \<open>Table determination\<close>

text \<open>
  C10. Table determination runs before filter resolution: a query that supplies neither
  metrics nor dimensions fails with \<open>NoTablesError\<close>, whatever its filters are, and so
  never with \<open>UnknownFilterFieldError\<close>, even when every filter field is unknown to the
  semantic layer.
\<close>

theorem no_tables_before_filters:
  assumes "metrics_requested q = []" and "dimensions_requested q = []"
  shows "generate_sql_query list_of q sl = Inl NoTablesError \<and>
         generate_sql_query list_of q sl \<noteq> Inl (UnknownFilterFieldError x)"
  using assms by (simp add: generate_sql_query_def compile_clauses_no_tables)

theorem no_tables_before_filters_witness:
  "metrics_requested query_filters_only = [] \<and>
   dimensions_requested query_filters_only = [] \<and>
   filters_requested query_filters_only \<noteq> [] \<and>
   list_all (unknown_filter semantic_layer_7) (filters_requested query_filters_only) \<and>
   generate_sql_query id query_filters_only semantic_layer_7 = Inl NoTablesError \<and>
   generate_sql_query id query_filters_only semantic_layer_7
     \<noteq> Inl (UnknownFilterFieldError ''no_such_field'')"
proof -
  have m: "metrics_requested query_filters_only = []"
    and d: "dimensions_requested query_filters_only = []"
    by (simp_all add: query_filters_only_def)
  have f: "filters_requested query_filters_only \<noteq> []"
    by (simp add: query_filters_only_def)
  have u: "list_all (unknown_filter semantic_layer_7) (filters_requested query_filters_only)"
    by code_simp
  from no_tables_before_filters [OF m d, of id semantic_layer_7 "''no_such_field''"] m d f u
  show ?thesis by simp
qed



section \<open>Join planning\<close>

lemma unconnected_iff: "unconnected p jds t \<longleftrightarrow> \<not> (\<exists>jd \<in> set jds. connects p t jd)"
  by (auto simp: unconnected_def find_None_iff)


lemma compile_clauses_from_clause:
  assumes "collect sl q = Inr (mds, dds, ts)"
  shows "compile_clauses list_of q sl = Inr c \<Longrightarrow>
           build_from_clause list_of ts (joins sl) = Inr (from_clause c)"
    and "build_from_clause list_of ts (joins sl) = Inl e \<Longrightarrow>
           compile_clauses list_of q sl = Inl e"
  using assms
  by (auto simp: compile_clauses_def Let_def split: sum.splits prod.splits)










section \<open>Filters and grouping\<close>

lemma compile_clauses_filters:
  assumes "collect sl q = Inr (mds, dds, ts)"
    and "build_from_clause list_of ts (joins sl) = Inr fc"
  shows "compile_clauses list_of q sl =
     (case build_filters (1 < length ts) sl (filters_requested q) ([], []) of
        Inl e \<Rightarrow> Inl e
      | Inr (wh, hv) \<Rightarrow>
          Inr \<lparr>select_items = map (metric_select (1 < length ts)) mds
                               @ map (dimension_select (1 < length ts)) dds,
               from_clause = fc, where_clauses = wh,
               group_by_terms = map (group_by_term (1 < length ts)) dds,
               having_clauses = hv\<rparr>)"
  using assms by (simp add: compile_clauses_def Let_def del: One_nat_def)






lemma collect_1:
  "collect semantic_layer_7 query_1 = Inr (metrics_definitions_7, [], [''order_items''])"
  by code_simp

subsection \<open>The text of a successful compile\<close>

lemma build_filters_lists:
  "build_filters mt sl fs ([], []) =
     (case find (unknown_filter sl) fs of
        Some f \<Rightarrow> Inl (UnknownFilterFieldError (field f))
      | None \<Rightarrow> Inr (where_list mt sl fs, having_list mt sl fs))"
proof (cases "find (unknown_filter sl) fs")
  case (Some f)
  then show ?thesis by (simp add: build_filters_eq)
next
  case None
  then have "\<forall>f \<in> set fs. \<not> unknown_filter sl f"
    by (simp add: find_None_iff)
  then have "filter (\<lambda>f. filter_dim_def sl f = None) fs =
      filter (\<lambda>f. filter_dim_def sl f = None \<and> filter_metric_def sl f \<noteq> None) fs"
    by (intro filter_cong refl) (auto simp: unknown_filter_def)
  with None show ?thesis
    by (simp add: build_filters_eq where_list_def having_list_def)
qed

lemma compile_clauses_eq:
  assumes "collect sl q = Inr (mds, dds, ts)"
    and "build_from_clause list_of ts (joins sl) = Inr fc"
    and "find (unknown_filter sl) (filters_requested q) = None"
  shows "compile_clauses list_of q sl =
     Inr \<lparr>select_items = map (metric_select (1 < length ts)) mds
                          @ map (dimension_select (1 < length ts)) dds,
          from_clause = fc,
          where_clauses = where_list (1 < length ts) sl (filters_requested q),
          group_by_terms = map (group_by_term (1 < length ts)) dds,
          having_clauses = having_list (1 < length ts) sl (filters_requested q)\<rparr>"
  using assms(3)
  by (simp add: compile_clauses_filters [OF assms(1,2)] build_filters_lists)

lemma generate_sql_query_Inr_stages:
  assumes "collect sl q = Inr (mds, dds, ts)"
    and "generate_sql_query list_of q sl = Inr out"
  obtains fc where "build_from_clause list_of ts (joins sl) = Inr fc"
    and "find (unknown_filter sl) (filters_requested q) = None"
proof -
  from assms(2) obtain c where c: "compile_clauses list_of q sl = Inr c"
    by (auto simp: generate_sql_query_Inr)
  have b: "build_from_clause list_of ts (joins sl) = Inr (from_clause c)"
    by (rule compile_clauses_from_clause(1) [OF assms(1) c])
  have "find (unknown_filter sl) (filters_requested q) = None"
  proof (cases "find (unknown_filter sl) (filters_requested q)")
    case None then show ?thesis .
  next
    case (Some f)
    then have "compile_clauses list_of q sl = Inl (UnknownFilterFieldError (field f))"
      by (simp add: compile_clauses_filters [OF assms(1) b] build_filters_lists)
    with c show ?thesis by simp
  qed
  with b that show ?thesis by blast
qed

lemma from_clause_text:
  assumes "build_from_clause list_of ts jds = Inr fc"
  obtains rest where "fc = ''FROM '' @ rest"
  using assms by (auto elim!: build_from_clause_Inr)

section \<open>Metric projections\<close>

lemma find_index_of_append:
  "c \<notin> set xs \<Longrightarrow> find_index_of c (xs @ c # ys) = Some (length xs)"
  by (induction xs) auto

lemma str_find_first:
  assumes "c \<notin> set F"
  shows "str_find (F @ c # R) c 0 = int (length F)"
  using assms by (simp add: str_find_def find_index_of_append)

lemma str_find_closing:
  assumes "d \<notin> set A" and "c \<noteq> d"
  shows "str_find (F @ c # A @ d # R) d (length F) = int (length F + 1 + length A)"
proof -
  have "find_index_of d (c # A @ d # R) = Some (Suc (length A))"
    using assms by (simp add: find_index_of_append)
  then show ?thesis by (simp add: str_find_def)
qed

lemma str_slice_prefix: "str_slice (F @ R) 0 (int (length F)) = F"
  by (simp add: str_slice_def slice_index_def Let_def)

lemma str_slice_middle:
  "str_slice (F @ c # A @ R) (int (length F) + 1) (int (length F + 1 + length A)) = A"
proof -
  have lo: "slice_index (length (F @ c # A @ R)) (int (length F) + 1) = length F + 1"
    by (simp add: slice_index_def)
  have hi: "slice_index (length (F @ c # A @ R)) (int (length F + 1 + length A))
              = length F + 1 + length A"
    by (simp add: slice_index_def)
  show ?thesis
    unfolding str_slice_def Let_def lo hi by simp
qed

lemma metric_sql_expr_call:
  assumes s: "sql m = F @ ''('' @ A @ '')'' @ R"
    and F: "CHR ''('' \<notin> set F" and A: "CHR '')'' \<notin> set A"
  shows "metric_sql_expr mt m =
           strip F @ ''('' @ (if mt then table m @ ''.'' else []) @ strip A @ '')''"
proof -
  have s': "sql m = F @ CHR ''('' # A @ CHR '')'' # R" using s by simp
  have mem: "CHR ''('' \<in> set (sql m) \<and> CHR '')'' \<in> set (sql m)"
    by (simp add: s')
  have st: "str_find (sql m) (CHR ''('') 0 = int (length F)"
    unfolding s' by (rule str_find_first [OF F])
  have en: "str_find (sql m) (CHR '')'') (length F) = int (length F + 1 + length A)"
    unfolding s' by (rule str_find_closing [OF A]) simp
  have f: "str_slice (sql m) 0 (int (length F)) = F"
    unfolding s' by (rule str_slice_prefix)
  have a: "str_slice (sql m) (int (length F) + 1) (int (length F + 1 + length A)) = A"
    unfolding s' by (rule str_slice_middle)
  show ?thesis
    unfolding metric_sql_expr_def Let_def
    by (simp only: mem st en f a nat_int simp_thms if_True) simp
qed

lemma metric_sql_expr_plain:
  assumes "CHR ''('' \<notin> set (sql m) \<or> CHR '')'' \<notin> set (sql m)"
  shows "metric_sql_expr mt m = (if mt then table m @ ''.'' else []) @ sql m"
  using assms by (auto simp: metric_sql_expr_def Let_def)

lemma get_definition_Some:
  "get_definition n ds = Some d \<Longrightarrow> d \<in> set ds \<and> name d = n"
  by (induction ds) (auto split: if_splits)

text \<open>
  C4. In the text of a successful compile the SELECT items are joined by commas between
  \<^verbatim>\<open>SELECT\<close> and the line of \<^verbatim>\<open>FROM\<close>, the metrics first. The item of the \<open>i\<close>-th
  resolved metric is aliased with the name of the metric, which is the requested name.
  When the expression of the metric is \<^verbatim>\<open>FUNC(arg)\<close>, with no parenthesis inside
  \<^verbatim>\<open>FUNC\<close> or \<^verbatim>\<open>arg\<close>, the item is \<^verbatim>\<open>FUNC(table.arg)\<close> in a compile over several
  tables and \<^verbatim>\<open>FUNC(arg)\<close> over one table, \<^verbatim>\<open>FUNC\<close> and \<^verbatim>\<open>arg\<close> being the texts
  before and between the parentheses with the white space around them stripped. When the
  expression lacks an opening or a closing parenthesis, the item is
  \<^verbatim>\<open>table.expression\<close> over several tables and the expression itself over one table.
\<close>
theorem metric_projection:
  assumes "collect sl q = Inr (mds, dds, ts)"
    and "generate_sql_query list_of q sl = Inr out"
    and "i < length mds"
  shows "name (mds ! i) = metrics_requested q ! i \<and>
         (\<exists>items rest.
            out = ''SELECT '' @ str_join '', '' items @ ''\<newline>FROM '' @ rest \<and>
            length items = length mds + length dds \<and>
            (\<forall>F A. sql (mds ! i) = F @ ''('' @ A @ '')'' \<and>
                   CHR ''('' \<notin> set F \<and> CHR '')'' \<notin> set F \<and>
                   CHR ''('' \<notin> set A \<and> CHR '')'' \<notin> set A \<longrightarrow>
               items ! i =
                 strip F @ ''('' @ (if 1 < length ts then table (mds ! i) @ ''.'' else [])
                   @ strip A @ '')'' @ '' AS '' @ name (mds ! i)) \<and>
            (CHR ''('' \<notin> set (sql (mds ! i)) \<or> CHR '')'' \<notin> set (sql (mds ! i)) \<longrightarrow>
               items ! i =
                 (if 1 < length ts then table (mds ! i) @ ''.'' else []) @ sql (mds ! i)
                   @ '' AS '' @ name (mds ! i)))"
proof -
  let ?mt = "1 < length ts"
  let ?items = "map (metric_select ?mt) mds @ map (dimension_select ?mt) dds"
  from assms(1,2) obtain fc where fc: "build_from_clause list_of ts (joins sl) = Inr fc"
    and nf: "find (unknown_filter sl) (filters_requested q) = None"
    by (rule generate_sql_query_Inr_stages)
  from fc obtain r where r: "fc = ''FROM '' @ r" by (rule from_clause_text)
  from assms(3) have ne: "?items \<noteq> []" by auto
  let ?tail = "(if where_list ?mt sl (filters_requested q) \<noteq> []
             then ''\<newline>WHERE '' @ str_join '' AND ''
                    (where_list ?mt sl (filters_requested q)) else [])
          @ (if dds \<noteq> []
             then ''\<newline>GROUP BY '' @ str_join '', ''
                    (map (group_by_term ?mt) dds) else [])
          @ (if having_list ?mt sl (filters_requested q) \<noteq> []
             then ''\<newline>HAVING '' @ str_join '' AND ''
                    (having_list ?mt sl (filters_requested q)) else [])"
  from compile_clauses_eq [OF assms(1) fc nf] assms(2)
  have "out = assemble
      \<lparr>select_items = map (metric_select (1 < length ts)) mds
                          @ map (dimension_select (1 < length ts)) dds,
          from_clause = fc,
          where_clauses = where_list (1 < length ts) sl (filters_requested q),
          group_by_terms = map (group_by_term (1 < length ts)) dds,
          having_clauses = having_list (1 < length ts) sl (filters_requested q)\<rparr>"
    by (simp add: generate_sql_query_def)
  then
  have "out = ''SELECT '' @ select_clause ?items @ ''\<newline>'' @ fc @ ?tail"
    by (simp add: assemble_def del: One_nat_def)
  with ne r have out: "out = ''SELECT '' @ str_join '', '' ?items @ ''\<newline>FROM '' @ (r @ ?tail)"
    by (simp add: select_clause_def)
  have len: "length ?items = length mds + length dds" by simp
  from assms(3) have item: "?items ! i =
      metric_sql_expr ?mt (mds ! i) @ '' AS '' @ name (mds ! i)"
    by (simp add: nth_append metric_select_def del: One_nat_def)
  have mds: "mds = map (\<lambda>n. the (get_definition n (metrics sl))) (metrics_requested q)"
    by (rule collect_Inr(1) [OF assms(1)])
  with assms(3) have il: "i < length (metrics_requested q)" by simp
  then have "metrics_requested q ! i \<in> set (metrics_requested q)" by simp
  with collect_Inr(4) [OF assms(1)]
  obtain d where d: "get_definition (metrics_requested q ! i) (metrics sl) = Some d"
    by auto
  from mds il d have "mds ! i = d" by simp
  with get_definition_Some [OF d] have nm: "name (mds ! i) = metrics_requested q ! i"
    by simp
  have call: "?items ! i =
              strip F @ ''('' @ (if ?mt then table (mds ! i) @ ''.'' else [])
                @ strip A @ '')'' @ '' AS '' @ name (mds ! i)"
    if "sql (mds ! i) = F @ ''('' @ A @ '')'' \<and>
                CHR ''('' \<notin> set F \<and> CHR '')'' \<notin> set F \<and>
                CHR ''('' \<notin> set A \<and> CHR '')'' \<notin> set A" for F A
  proof -
    from that have "sql (mds ! i) = F @ ''('' @ A @ '')'' @ []"
      and "CHR ''('' \<notin> set F" and "CHR '')'' \<notin> set A"
      by simp_all
    then have "metric_sql_expr ?mt (mds ! i) =
           strip F @ ''('' @ (if ?mt then table (mds ! i) @ ''.'' else [])
             @ strip A @ '')''"
      by (rule metric_sql_expr_call)
    with item show ?thesis by simp
  qed
  have plain: "?items ! i =
              (if ?mt then table (mds ! i) @ ''.'' else []) @ sql (mds ! i)
                @ '' AS '' @ name (mds ! i)"
    if "CHR ''('' \<notin> set (sql (mds ! i)) \<or> CHR '')'' \<notin> set (sql (mds ! i))"
    using item metric_sql_expr_plain [OF that, of ?mt] by simp
  from out len call plain
  have "\<exists>items rest.
            out = ''SELECT '' @ str_join '', '' items @ ''\<newline>FROM '' @ rest \<and>
            length items = length mds + length dds \<and>
            (\<forall>F A. sql (mds ! i) = F @ ''('' @ A @ '')'' \<and>
                   CHR ''('' \<notin> set F \<and> CHR '')'' \<notin> set F \<and>
                   CHR ''('' \<notin> set A \<and> CHR '')'' \<notin> set A \<longrightarrow>
               items ! i =
                 strip F @ ''('' @ (if 1 < length ts then table (mds ! i) @ ''.'' else [])
                   @ strip A @ '')'' @ '' AS '' @ name (mds ! i)) \<and>
            (CHR ''('' \<notin> set (sql (mds ! i)) \<or> CHR '')'' \<notin> set (sql (mds ! i)) \<longrightarrow>
               items ! i =
                 (if 1 < length ts then table (mds ! i) @ ''.'' else []) @ sql (mds ! i)
                   @ '' AS '' @ name (mds ! i))"
    by (intro exI [of _ ?items] exI [of _ "r @ ?tail"]) blast
  with nm show ?thesis by (rule conjI)
qed

lemma collect_plain:
  "collect semantic_layer_plain query_plain =
     Inr ([\<lparr>name = ''price'', sql = ''sale_price'', table = ''order_items''\<rparr>],
          [(\<lparr>name = ''gender'', sql = ''gender'', table = ''orders''\<rparr>, None, ''gender'')],
          [''order_items'', ''orders''])"
  by code_simp

lemma collect_spaces:
  "collect semantic_layer_spaces query_7 =
     Inr ([\<lparr>name = ''total_revenue'', sql = '' SUM ( sale_price )'', table = ''order_items''\<rparr>],
          dimensions_definitions_7, [''order_items'', ''orders''])"
  by code_simp

theorem metric_projection_witness:
  "generate_sql_query id query_7 semantic_layer_7 = Inr expected_sql_7_1 \<and>
   (\<exists>items rest.
      expected_sql_7_1 = ''SELECT '' @ str_join '', '' items @ ''\<newline>FROM '' @ rest \<and>
      length items = 4 \<and> items ! 0 = ''SUM(order_items.sale_price) AS total_revenue'') \<and>
   generate_sql_query id query_7 semantic_layer_spaces = Inr expected_sql_7_1 \<and>
   (\<exists>items rest.
      expected_sql_7_1 = ''SELECT '' @ str_join '', '' items @ ''\<newline>FROM '' @ rest \<and>
      length items = 4 \<and> items ! 0 = ''SUM(order_items.sale_price) AS total_revenue'') \<and>
   (\<exists>items rest.
      generate_sql_query id query_1 semantic_layer_7 =
        Inr (''SELECT '' @ str_join '', '' items @ ''\<newline>FROM '' @ rest) \<and>
      length items = 1 \<and> items ! 0 = ''SUM(sale_price) AS total_revenue'') \<and>
   (\<exists>items rest.
      generate_sql_query id query_plain semantic_layer_plain =
        Inr (''SELECT '' @ str_join '', '' items @ ''\<newline>FROM '' @ rest) \<and>
      length items = 2 \<and> items ! 0 = ''order_items.sale_price AS price'')"
proof -
  have g7X: "generate_sql_query id query_7 semantic_layer_7 = Inr expected_sql_7_1"
    by code_simp
  have gsX: "generate_sql_query id query_7 semantic_layer_spaces = Inr expected_sql_7_1"
    by code_simp
  have g1X: "generate_sql_query id query_1 semantic_layer_7 =
      Inr ''SELECT SUM(sale_price) AS total_revenue\<newline>FROM order_items''"
    by code_simp
  have gpX: "generate_sql_query id query_plain semantic_layer_plain =
      Inr ''SELECT order_items.sale_price AS price, orders.gender AS gender\<newline>FROM order_items\<newline>JOIN orders ON order_items.order_id = orders.order_id\<newline>GROUP BY orders.gender''"
    by code_simp
  have i: "0 < length metrics_definitions_7"
    by (simp add: metrics_definitions_7_def)
  have s: "sql (metrics_definitions_7 ! 0) = ''SUM'' @ ''('' @ ''sale_price'' @ '')'' \<and>
           CHR ''('' \<notin> set ''SUM'' \<and> CHR '')'' \<notin> set ''SUM'' \<and>
           CHR ''('' \<notin> set ''sale_price'' \<and> CHR '')'' \<notin> set ''sale_price''"
    by (simp add: metrics_definitions_7_def)
  have e7: "strip ''SUM'' @ ''(''
      @ (if 1 < length [''order_items'', ''orders'']
         then table (metrics_definitions_7 ! 0) @ ''.'' else [])
      @ strip ''sale_price'' @ '')'' @ '' AS '' @ name (metrics_definitions_7 ! 0)
      = ''SUM(order_items.sale_price) AS total_revenue''"
    by code_simp
  have e1: "strip ''SUM'' @ ''(''
      @ (if 1 < length [''order_items'']
         then table (metrics_definitions_7 ! 0) @ ''.'' else [])
      @ strip ''sale_price'' @ '')'' @ '' AS '' @ name (metrics_definitions_7 ! 0)
      = ''SUM(sale_price) AS total_revenue''"
    by code_simp
  have l7: "length metrics_definitions_7 + length dimensions_definitions_7 = 4"
    by (simp add: metrics_definitions_7_def dimensions_definitions_7_def)
  have l1: "length metrics_definitions_7 + length ([] :: (defn \<times> string option \<times> string) list) = 1"
    by (simp add: metrics_definitions_7_def)
  from metric_projection [OF collect_7 g7X i, THEN conjunct2]
  obtain items7 rest7 where
    "expected_sql_7_1 = ''SELECT '' @ str_join '', '' items7 @ ''\<newline>FROM '' @ rest7"
    "length items7 = length metrics_definitions_7 + length dimensions_definitions_7"
    "\<forall>F A. sql (metrics_definitions_7 ! 0) = F @ ''('' @ A @ '')'' \<and>
           CHR ''('' \<notin> set F \<and> CHR '')'' \<notin> set F \<and>
           CHR ''('' \<notin> set A \<and> CHR '')'' \<notin> set A \<longrightarrow>
       items7 ! 0 =
         strip F @ ''('' @ (if 1 < length [''order_items'', ''orders'']
                            then table (metrics_definitions_7 ! 0) @ ''.'' else [])
           @ strip A @ '')'' @ '' AS '' @ name (metrics_definitions_7 ! 0)"
    by blast
  from this(1) this(2) this(3) [rule_format, OF s]
  have 1: "\<exists>items rest.
      expected_sql_7_1 = ''SELECT '' @ str_join '', '' items @ ''\<newline>FROM '' @ rest \<and>
      length items = 4 \<and> items ! 0 = ''SUM(order_items.sale_price) AS total_revenue''"
    unfolding e7 l7 by blast
  let ?ms = "[\<lparr>name = ''total_revenue'', sql = '' SUM ( sale_price )'', table = ''order_items''\<rparr>]"
  have i0: "0 < length ?ms" by simp
  have ss: "sql (?ms ! 0) = '' SUM '' @ ''('' @ '' sale_price '' @ '')'' \<and>
           CHR ''('' \<notin> set '' SUM '' \<and> CHR '')'' \<notin> set '' SUM '' \<and>
           CHR ''('' \<notin> set '' sale_price '' \<and> CHR '')'' \<notin> set '' sale_price ''"
    by simp
  have es: "strip '' SUM '' @ ''(''
      @ (if 1 < length [''order_items'', ''orders''] then table (?ms ! 0) @ ''.'' else [])
      @ strip '' sale_price '' @ '')'' @ '' AS '' @ name (?ms ! 0)
      = ''SUM(order_items.sale_price) AS total_revenue''"
    by code_simp
  have ls: "length ?ms + length dimensions_definitions_7 = 4"
    by (simp add: dimensions_definitions_7_def)
  from metric_projection [OF collect_spaces gsX i0, THEN conjunct2]
  obtain itemss rests where
    "expected_sql_7_1 = ''SELECT '' @ str_join '', '' itemss @ ''\<newline>FROM '' @ rests"
    "length itemss = length ?ms + length dimensions_definitions_7"
    "\<forall>F A. sql (?ms ! 0) = F @ ''('' @ A @ '')'' \<and>
           CHR ''('' \<notin> set F \<and> CHR '')'' \<notin> set F \<and>
           CHR ''('' \<notin> set A \<and> CHR '')'' \<notin> set A \<longrightarrow>
       itemss ! 0 =
         strip F @ ''('' @ (if 1 < length [''order_items'', ''orders'']
                            then table (?ms ! 0) @ ''.'' else [])
           @ strip A @ '')'' @ '' AS '' @ name (?ms ! 0)"
    by blast
  from this(1) this(2) this(3) [rule_format, OF ss]
  have 2: "\<exists>items rest.
      expected_sql_7_1 = ''SELECT '' @ str_join '', '' items @ ''\<newline>FROM '' @ rest \<and>
      length items = 4 \<and> items ! 0 = ''SUM(order_items.sale_price) AS total_revenue''"
    unfolding es ls by blast
  from metric_projection [OF collect_1 g1X i, THEN conjunct2]
  obtain items1 rest1 where
    "''SELECT SUM(sale_price) AS total_revenue\<newline>FROM order_items''
       = ''SELECT '' @ str_join '', '' items1 @ ''\<newline>FROM '' @ rest1"
    "length items1 = length metrics_definitions_7 + length ([] :: (defn \<times> string option \<times> string) list)"
    "\<forall>F A. sql (metrics_definitions_7 ! 0) = F @ ''('' @ A @ '')'' \<and>
           CHR ''('' \<notin> set F \<and> CHR '')'' \<notin> set F \<and>
           CHR ''('' \<notin> set A \<and> CHR '')'' \<notin> set A \<longrightarrow>
       items1 ! 0 =
         strip F @ ''('' @ (if 1 < length [''order_items'']
                            then table (metrics_definitions_7 ! 0) @ ''.'' else [])
           @ strip A @ '')'' @ '' AS '' @ name (metrics_definitions_7 ! 0)"
    by blast
  from this(1) this(2) this(3) [rule_format, OF s]
  have 3: "\<exists>items rest.
      generate_sql_query id query_1 semantic_layer_7 =
        Inr (''SELECT '' @ str_join '', '' items @ ''\<newline>FROM '' @ rest) \<and>
      length items = 1 \<and> items ! 0 = ''SUM(sale_price) AS total_revenue''"
    unfolding e1 l1 g1X by blast
  let ?mp = "[\<lparr>name = ''price'', sql = ''sale_price'', table = ''order_items''\<rparr>]"
  let ?dp = "[(\<lparr>name = ''gender'', sql = ''gender'', table = ''orders''\<rparr>, None :: string option, ''gender'')]"
  have ip: "0 < length ?mp" by simp
  have sp: "CHR ''('' \<notin> set (sql (?mp ! 0)) \<or> CHR '')'' \<notin> set (sql (?mp ! 0))"
    by simp
  have ep: "(if 1 < length [''order_items'', ''orders''] then table (?mp ! 0) @ ''.'' else [])
      @ sql (?mp ! 0) @ '' AS '' @ name (?mp ! 0) = ''order_items.sale_price AS price''"
    by simp
  have lp: "length ?mp + length ?dp = 2" by simp
  from metric_projection [OF collect_plain gpX ip, THEN conjunct2]
  obtain itemsp restp where
    "''SELECT order_items.sale_price AS price, orders.gender AS gender\<newline>FROM order_items\<newline>JOIN orders ON order_items.order_id = orders.order_id\<newline>GROUP BY orders.gender''
       = ''SELECT '' @ str_join '', '' itemsp @ ''\<newline>FROM '' @ restp"
    "length itemsp = length ?mp + length ?dp"
    "CHR ''('' \<notin> set (sql (?mp ! 0)) \<or> CHR '')'' \<notin> set (sql (?mp ! 0)) \<longrightarrow>
       itemsp ! 0 =
         (if 1 < length [''order_items'', ''orders''] then table (?mp ! 0) @ ''.'' else [])
           @ sql (?mp ! 0) @ '' AS '' @ name (?mp ! 0)"
    by blast
  from this(1) this(2) this(3) [rule_format, OF sp]
  have 4: "\<exists>items rest.
      generate_sql_query id query_plain semantic_layer_plain =
        Inr (''SELECT '' @ str_join '', '' items @ ''\<newline>FROM '' @ rest) \<and>
      length items = 2 \<and> items ! 0 = ''order_items.sale_price AS price''"
    unfolding ep lp gpX by blast
  from g7X 1 gsX 2 3 4 show ?thesis by blast
qed

section \<open>Grouping\<close>




section \<open>Filters\<close>














section \<open>Grain suffixes\<close>

text \<open>On a name in which no grain suffix occurs before the end, \<open>parse_date_trunc\<close>
  removes the trailing suffix, as the specification words it.\<close>

lemma str_replace_trailing:
  assumes "suf \<noteq> []" and "\<forall>k < length b. \<not> startswith (drop k (b @ suf)) suf"
  shows "str_replace (b @ suf) suf [] = b"
  using assms(2)
proof (induction b)
  case Nil
  from assms(1) obtain c cs where suf: "suf = c # cs" by (cases suf) auto
  have "startswith suf suf" by (simp add: startswith_iff)
  then show ?case using assms(1) by (simp add: suf)
next
  case (Cons x b)
  from Cons.prems have 0: "\<not> startswith ((x # b) @ suf) suf" by force
  have "\<forall>k < length b. \<not> startswith (drop k (b @ suf)) suf"
  proof (intro allI impI)
    fix k assume "k < length b"
    then have "Suc k < length (x # b)" by simp
    with Cons.prems have "\<not> startswith (drop (Suc k) ((x # b) @ suf)) suf" by blast
    then show "\<not> startswith (drop k (b @ suf)) suf" by simp
  qed
  from Cons.IH [OF this] 0 assms(1) show ?case by simp
qed

lemma str_replace_suffix_only_at_end:
  assumes "suf \<noteq> []" and "endswith n suf" and "suffix_only_at_end n suf"
  shows "str_replace n suf [] = take (length n - length suf) n"
proof -
  from assms(2) obtain b where n: "n = b @ suf" by (auto simp: endswith_iff)
  from assms(3) have "\<forall>k < length b. \<not> startswith (drop k (b @ suf)) suf"
    by (simp add: suffix_only_at_end_def n)
  from str_replace_trailing [OF assms(1) this] show ?thesis by (simp add: n)
qed

lemma parse_date_trunc_trailing:
  assumes "suffix_only_at_end n ''__week''" and "suffix_only_at_end n ''__month''"
    and "suffix_only_at_end n ''__year''"
  shows "parse_date_trunc n = strip_trailing_grain n"
proof -
  have w: "str_replace n ''__week'' [] = take (length n - 6) n" if "endswith n ''__week''"
    using str_replace_suffix_only_at_end [of "''__week''" n] that assms(1) by (simp add: eval_nat_numeral)
  have m: "str_replace n ''__month'' [] = take (length n - 7) n" if "endswith n ''__month''"
    using str_replace_suffix_only_at_end [of "''__month''" n] that assms(2) by (simp add: eval_nat_numeral)
  have y: "str_replace n ''__year'' [] = take (length n - 6) n" if "endswith n ''__year''"
    using str_replace_suffix_only_at_end [of "''__year''" n] that assms(3) by (simp add: eval_nat_numeral)
  show ?thesis
    unfolding parse_date_trunc_def strip_trailing_grain_def
    using w m y by auto
qed

text \<open>The lookup returns the first definition of the list that carries the name.\<close>

lemma get_definition_find: "get_definition n ds = find (\<lambda>d. name d = n) ds"
  by (induction ds) auto

text \<open>
  C3. The suffix test of \<^verbatim>\<open>_parse_date_trunc\<close> looks at the end of the name, but the
  base name is built with \<^verbatim>\<open>replace\<close>, which removes every occurrence of the suffix.
  For the name \<^verbatim>\<open>orders__weekly__week\<close> the name with the trailing suffix removed is
  \<^verbatim>\<open>orders__weekly\<close>; the function returns \<^verbatim>\<open>ordersly\<close>.
\<close>
theorem parse_date_trunc_removes_every_occurrence:
  "parse_date_trunc ''orders__weekly__week'' = (''ordersly'', Some ''WEEK'')"
  by code_simp

section \<open>Referential closure\<close>

text \<open>
  C2. The tables of the FROM and JOIN clauses are those of the requested metrics and
  dimensions; the table of a definition that only a filter refers to is not among them.
  In a compile over several tables the filter expression is qualified by that table all
  the same: here the WHERE clause names \<^verbatim>\<open>users\<close>, and the FROM and JOIN clauses name
  \<^verbatim>\<open>order_items\<close> and \<^verbatim>\<open>orders\<close> only.
\<close>
theorem filter_table_outside_from_clause:
  "generate_sql_query id query_users semantic_layer_users =
     Inr (''SELECT SUM(order_items.sale_price) AS total_revenue, orders.gender AS gender\<newline>FROM order_items\<newline>JOIN orders ON order_items.order_id = orders.order_id\<newline>WHERE users.country = '' @ [CHR 0x27] @ ''UK'' @ [CHR 0x27] @ ''\<newline>GROUP BY orders.gender'')"
  by code_simp

end
